theory Spec2Isabelle
  imports Main "HOL-Library.Sublist"
begin

section \<open>Python strings\<close>

text \<open>
  A Python \<open>str\<close> is a sequence of code points. It is modelled as a \<open>string\<close>, the
  character of number \<open>n\<close> standing for the code point \<open>n\<close>, so the model covers every
  text whose code points are below 256 (ASCII and Latin-1). The built-in methods
  below are written out for that range as CPython defines them.
\<close>

text \<open>\<open>str.isspace\<close> on one character: what \<open>str.strip()\<close> removes.\<close>

definition is_space :: "char \<Rightarrow> bool" where
  "is_space c \<longleftrightarrow> c \<in> set [CHR 0x09, CHR 0x0A, CHR 0x0B, CHR 0x0C, CHR 0x0D,
      CHR 0x1C, CHR 0x1D, CHR 0x1E, CHR 0x1F, CHR 0x20, CHR 0x85, CHR 0xA0]"

text \<open>\<open>s.strip()\<close>\<close>

definition str_strip :: "string \<Rightarrow> string" where
  "str_strip s = rev (dropWhile is_space (rev (dropWhile is_space s)))"

text \<open>The line boundaries of \<open>str.splitlines\<close>; \<open>\r\n\<close> counts as one boundary.\<close>

definition is_linebreak :: "char \<Rightarrow> bool" where
  "is_linebreak c \<longleftrightarrow> c \<in> set [CHR 0x0A, CHR 0x0B, CHR 0x0C, CHR 0x0D,
      CHR 0x1C, CHR 0x1D, CHR 0x1E, CHR 0x85]"

fun splitlines_from :: "string \<Rightarrow> string \<Rightarrow> string list" where
  "splitlines_from cur [] = (if cur = [] then [] else [cur])"
| "splitlines_from cur [c] =
     (if is_linebreak c then [cur] else splitlines_from (cur @ [c]) [])"
| "splitlines_from cur (c # d # cs) =
     (if c = CHR 0x0D \<and> d = CHR 0x0A then cur # splitlines_from [] cs
      else if is_linebreak c then cur # splitlines_from [] (d # cs)
      else splitlines_from (cur @ [c]) (d # cs))"

text \<open>\<open>s.splitlines()\<close>\<close>

definition str_splitlines :: "string \<Rightarrow> string list" where
  "str_splitlines s = splitlines_from [] s"

text \<open>\<open>s.split(sep)\<close> for a one-character separator.\<close>

fun split_from :: "char \<Rightarrow> string \<Rightarrow> string \<Rightarrow> string list" where
  "split_from sep cur [] = [cur]"
| "split_from sep cur (c # cs) =
     (if c = sep then cur # split_from sep [] cs else split_from sep (cur @ [c]) cs)"

definition str_split :: "char \<Rightarrow> string \<Rightarrow> string list" where
  "str_split sep s = split_from sep [] s"

text \<open>\<open>s.split(sep, 1)\<close>: one part when \<open>sep\<close> does not occur, two parts otherwise.\<close>

definition str_split1 :: "char \<Rightarrow> string \<Rightarrow> string list" where
  "str_split1 sep s =
     (if sep \<in> set s
      then [takeWhile (\<lambda>c. c \<noteq> sep) s, tl (dropWhile (\<lambda>c. c \<noteq> sep) s)]
      else [s])"

text \<open>\<open>sep.join(xs)\<close>\<close>

fun str_join :: "string \<Rightarrow> string list \<Rightarrow> string" where
  "str_join sep [] = []"
| "str_join sep [x] = x"
| "str_join sep (x # y # ys) = x @ sep @ str_join sep (y # ys)"

text \<open>\<open>s.replace(c, new)\<close> for a one-character pattern.\<close>

definition str_replace :: "char \<Rightarrow> string \<Rightarrow> string \<Rightarrow> string" where
  "str_replace old new s = concat (map (\<lambda>c. if c = old then new else [c]) s)"

text \<open>
  \<open>s.lower()\<close>: the cased letters below 256 are A to Z and the Latin-1 capitals
  0xC0 to 0xDE without the multiplication sign 0xD7; each maps to the code point 32 above.
\<close>

definition upper_letters :: string where
  "upper_letters = ''ABCDEFGHIJKLMNOPQRSTUVWXYZ'' @
     [CHR 0xC0, CHR 0xC1, CHR 0xC2, CHR 0xC3, CHR 0xC4, CHR 0xC5, CHR 0xC6, CHR 0xC7,
      CHR 0xC8, CHR 0xC9, CHR 0xCA, CHR 0xCB, CHR 0xCC, CHR 0xCD, CHR 0xCE, CHR 0xCF,
      CHR 0xD0, CHR 0xD1, CHR 0xD2, CHR 0xD3, CHR 0xD4, CHR 0xD5, CHR 0xD6,
      CHR 0xD8, CHR 0xD9, CHR 0xDA, CHR 0xDB, CHR 0xDC, CHR 0xDD, CHR 0xDE]"

definition lower_letters :: string where
  "lower_letters = ''abcdefghijklmnopqrstuvwxyz'' @
     [CHR 0xE0, CHR 0xE1, CHR 0xE2, CHR 0xE3, CHR 0xE4, CHR 0xE5, CHR 0xE6, CHR 0xE7,
      CHR 0xE8, CHR 0xE9, CHR 0xEA, CHR 0xEB, CHR 0xEC, CHR 0xED, CHR 0xEE, CHR 0xEF,
      CHR 0xF0, CHR 0xF1, CHR 0xF2, CHR 0xF3, CHR 0xF4, CHR 0xF5, CHR 0xF6,
      CHR 0xF8, CHR 0xF9, CHR 0xFA, CHR 0xFB, CHR 0xFC, CHR 0xFD, CHR 0xFE]"

definition lower_char :: "char \<Rightarrow> char" where
  "lower_char c =
     (case map_of (zip upper_letters lower_letters) c of Some l \<Rightarrow> l | None \<Rightarrow> c)"

definition str_lower :: "string \<Rightarrow> string" where
  "str_lower s = map lower_char s"

text \<open>\<open>str(n)\<close> for an integer.\<close>

definition digit_char :: "nat \<Rightarrow> char" where
  "digit_char d = ''0123456789'' ! (d mod 10)"

function str_nat :: "nat \<Rightarrow> string" where
  "str_nat n = (if n < 10 then [digit_char n] else str_nat (n div 10) @ [digit_char (n mod 10)])"
  by pat_completeness auto
termination
  by (relation "measure id") auto

declare str_nat.simps [simp del]

definition str_int :: "int \<Rightarrow> string" where
  "str_int i = (if i < 0 then CHR ''-'' # str_nat (nat (- i)) else str_nat (nat i))"

text \<open>
  \<open>s.encode('utf-8', errors='ignore')\<close>: a code point below 128 is one byte, one from
  128 to 255 is two bytes. No code point of the model is unencodable, so nothing is
  ignored.
\<close>

definition utf8_char :: "char \<Rightarrow> string" where
  "utf8_char c = (let n = (of_char c :: nat) in
     if n < 128 then [c] else [char_of (192 + n div 64), char_of (128 + n mod 64)])"

definition utf8_encode :: "string \<Rightarrow> string" where
  "utf8_encode s = concat (map utf8_char s)"

text \<open>\<open>d.get(k, default)\<close> on a dictionary.\<close>

definition dict_get :: "('k \<rightharpoonup> 'v) \<Rightarrow> 'k \<Rightarrow> 'v \<Rightarrow> 'v" where
  "dict_get d k dflt = (case d k of None \<Rightarrow> dflt | Some v \<Rightarrow> v)"

section \<open>AccountParser\<close>

text \<open>
  The exceptions the modelled code can raise: \<open>ValueError\<close> from unpacking the result
  of a split into two names, \<open>IndexError\<close> from \<open>parts[0]\<close>, \<open>UnboundLocalError\<close> from
  returning \<open>content\<close> when no format branch assigned it.
\<close>

datatype error = ValueError | IndexError | UnboundLocalError

text \<open>The dictionary \<open>_parse_line\<close> returns.\<close>

record account =
  email :: string
  password :: string
  details :: "string \<rightharpoonup> string"
  raw :: string

text \<open>The loop of \<open>_parse_line\<close> over \<open>detail_parts\<close>, filling \<open>parsed_details\<close>.\<close>

fun parse_details :: "string list \<Rightarrow> (string \<rightharpoonup> string) \<Rightarrow> error + (string \<rightharpoonup> string)" where
  "parse_details [] parsed_details = Inr parsed_details"
| "parse_details (detail # rest) parsed_details =
     (if CHR ''='' \<in> set detail
      then (case str_split1 CHR ''='' detail of
              [key, val] \<Rightarrow> parse_details rest (parsed_details(str_strip key \<mapsto> str_strip val))
            | _ \<Rightarrow> Inl ValueError)
      else parse_details rest parsed_details)"

text \<open>\<open>AccountParser._parse_line\<close>; an exception is logged and raised again.\<close>

definition parse_line :: "string \<Rightarrow> error + account" where
  "parse_line line =
     (case str_split1 CHR ''|'' line of
        [] \<Rightarrow> Inl IndexError
      | credentials_part # remainder \<Rightarrow>
          (case str_split1 CHR '':'' (str_strip credentials_part) of
             [email', password'] \<Rightarrow>
               (case (case remainder of
                        [] \<Rightarrow> Inr Map.empty
                      | details_part # _ \<Rightarrow> parse_details (str_split CHR ''|'' details_part) Map.empty) of
                  Inl e \<Rightarrow> Inl e
                | Inr parsed_details \<Rightarrow>
                    Inr \<lparr>email = str_strip email', password = str_strip password',
                         details = parsed_details, raw = str_strip line\<rparr>)
           | _ \<Rightarrow> Inl ValueError))"

text \<open>
  The loop of \<open>AccountParser.parse_file\<close>: a blank line is skipped, a line whose parse
  raises is logged and skipped, any other line appends its record.
\<close>

fun parse_lines :: "string list \<Rightarrow> account list \<Rightarrow> account list" where
  "parse_lines [] accounts = accounts"
| "parse_lines (line # rest) accounts =
     parse_lines rest
       (if str_strip line \<noteq> []
        then (case parse_line line of
                Inr account \<Rightarrow> accounts @ [account]
              | Inl e \<Rightarrow> accounts)
        else accounts)"

definition parse_file :: "string \<Rightarrow> account list" where
  "parse_file content = parse_lines (str_splitlines content) []"

section \<open>StatsGenerator\<close>

record stats =
  plans :: "string \<rightharpoonup> nat"
  phone :: "string \<rightharpoonup> nat"
  country :: "string \<rightharpoonup> nat"
  hold :: "string \<rightharpoonup> nat"
  payment :: "string \<rightharpoonup> nat"
  total :: nat

text \<open>\<open>table[k] += 1\<close> on a \<open>defaultdict(int)\<close>.\<close>

definition incr :: "(string \<rightharpoonup> nat) \<Rightarrow> string \<Rightarrow> (string \<rightharpoonup> nat)" where
  "incr table k = table(k \<mapsto> (case table k of None \<Rightarrow> 0 | Some n \<Rightarrow> n) + 1)"

text \<open>One iteration of the loop of \<open>generate_stats\<close>.\<close>

definition count_account :: "account \<Rightarrow> stats \<Rightarrow> stats" where
  "count_account account st =
     (let d = details account;
          plan = dict_get d ''Plan'' ''Unknown'';
          phone_verified = dict_get d ''PhoneVerified'' ''Unknown'';
          country' = dict_get d ''Country'' ''Unknown'';
          hold' = dict_get d ''Hold'' ''false'';
          payment' = dict_get d ''PaymentMethod'' ''Unknown''
      in st\<lparr>plans := incr (plans st) plan,
            phone := incr (phone st) phone_verified,
            country := incr (country st) country',
            hold := incr (hold st) hold',
            payment := incr (payment st) payment'\<rparr>)"

fun stats_loop :: "account list \<Rightarrow> stats \<Rightarrow> stats" where
  "stats_loop [] st = st"
| "stats_loop (account # rest) st = stats_loop rest (count_account account st)"

definition generate_stats :: "account list \<Rightarrow> stats" where
  "generate_stats accounts =
     stats_loop accounts
       \<lparr>plans = Map.empty, phone = Map.empty, country = Map.empty, hold = Map.empty,
        payment = Map.empty, total = length accounts\<rparr>"

text \<open>The sum of the counts of a frequency table, and the count of one value.\<close>

definition table_sum :: "(string \<rightharpoonup> nat) \<Rightarrow> nat" where
  "table_sum table = (\<Sum>k \<in> dom table. the (table k))"

definition table_count :: "(string \<rightharpoonup> nat) \<Rightarrow> string \<Rightarrow> nat" where
  "table_count table k = (case table k of None \<Rightarrow> 0 | Some n \<Rightarrow> n)"

section \<open>NetflixAccountBot: filtering\<close>

text \<open>The test the body of the loop of \<open>filter_accounts\<close> makes before appending.\<close>

definition account_matches :: "string \<Rightarrow> string \<Rightarrow> account \<Rightarrow> bool" where
  "account_matches filter_type val account =
     (let d = details account in
      if filter_type = ''plan'' then
        str_lower (dict_get d ''Plan'' []) = str_lower val
      else if filter_type = ''country'' then
        str_lower (dict_get d ''Country'' []) = str_lower val
      else if filter_type = ''phone'' then
        (let phone_status = str_lower (dict_get d ''PhoneVerified'' ''Unknown'')
         in (val = ''Verified'' \<and> phone_status = ''true'') \<or>
            (val = ''Unverified'' \<and> phone_status \<in> set [''false'', ''null'', ''unknown'']))
      else if filter_type = ''hold'' then
        (let hold_status = str_lower (dict_get d ''Hold'' ''false'')
         in (val = ''On Hold'' \<and> hold_status = ''true'') \<or>
            (val = ''Active'' \<and> hold_status = ''false''))
      else if filter_type = ''payment'' then
        str_lower (dict_get d ''PaymentMethod'' ''Unknown'') = str_lower val
      else False)"

fun filter_loop :: "string \<Rightarrow> string \<Rightarrow> account list \<Rightarrow> account list \<Rightarrow> account list" where
  "filter_loop filter_type val [] filtered = filtered"
| "filter_loop filter_type val (account # rest) filtered =
     filter_loop filter_type val rest
       (if account_matches filter_type val account then filtered @ [account] else filtered)"

definition filter_accounts :: "account list \<Rightarrow> string \<Rightarrow> string \<Rightarrow> account list" where
  "filter_accounts accounts filter_type val = filter_loop filter_type val accounts []"

section \<open>NetflixAccountBot: export\<close>

definition csv_header :: string where
  "csv_header = ''Email,Password,Plan,Country,PhoneVerified,Hold,PaymentMethod''"

text \<open>The inner loop of the CSV branch: each cell escaped and quoted.\<close>

fun escape_cells :: "string list \<Rightarrow> string list \<Rightarrow> string list" where
  "escape_cells [] escaped_row = escaped_row"
| "escape_cells (cell # rest) escaped_row =
     escape_cells rest
       (escaped_row @ [[CHR 0x22] @ str_replace (CHR 0x22) [CHR 0x22, CHR 0x22] cell @ [CHR 0x22]])"

text \<open>The outer loop of the CSV branch, appending one line per account to \<open>rows\<close>.\<close>

fun csv_loop :: "account list \<Rightarrow> string list \<Rightarrow> string list" where
  "csv_loop [] rows = rows"
| "csv_loop (acc # rest) rows =
     (let d = details acc;
          row = [email acc, password acc, dict_get d ''Plan'' [], dict_get d ''Country'' [],
                 dict_get d ''PhoneVerified'' [], dict_get d ''Hold'' [],
                 dict_get d ''PaymentMethod'' []]
      in csv_loop rest (rows @ [str_join '','' (escape_cells row [])]))"

text \<open>
  \<open>format_filtered_accounts\<close>, with the time stamp of \<open>datetime.now()\<close> as an argument.
  A format other than \<open>text\<close> and \<open>csv\<close> leaves \<open>content\<close> unassigned, and the return
  raises.
\<close>

definition format_filtered_accounts :: "account list \<Rightarrow> string \<Rightarrow> string \<Rightarrow> error + string \<times> string" where
  "format_filtered_accounts accounts format_type timestamp =
     (if format_type = ''text'' then
        Inr (str_join [CHR 0x0A] (map raw accounts),
             ''netflix_accounts_'' @ timestamp @ ''.txt'')
      else if format_type = ''csv'' then
        Inr (str_join [CHR 0x0A] (csv_loop accounts [csv_header]),
             ''netflix_accounts_'' @ timestamp @ ''.csv'')
      else Inl UnboundLocalError)"

text \<open>What one call of \<open>context.bot.send_document\<close> receives.\<close>

record document =
  doc_chat_id :: int
  doc_data :: string
  doc_filename :: string

text \<open>
  The loop \<open>for idx in range(0, len(accounts), batch_size)\<close> of \<open>send_export_files\<close>,
  the documents sent so far in \<open>sent\<close>. A range with a negative step from 0 is empty.
  \<open>total_parts\<close> is computed as in the source, where nothing uses it. The file name
  that \<open>format_filtered_accounts\<close> returns is dropped, so the time stamp it is given
  does not show in the result.
\<close>

function send_chunks :: "int \<Rightarrow> account list \<Rightarrow> string \<Rightarrow> int \<Rightarrow> string \<Rightarrow> string \<Rightarrow> int \<Rightarrow>
    document list \<Rightarrow> error + document list" where
  "send_chunks chat accounts fmt batch_size timestamp base_prefix idx sent =
     (if 0 < batch_size \<and> idx < int (length accounts) then
        (let chunk = take (nat batch_size) (drop (nat idx) accounts) in
         case format_filtered_accounts chunk fmt timestamp of
           Inl e \<Rightarrow> Inl e
         | Inr (chunk_content, _) \<Rightarrow>
             (let part = idx div batch_size + 1;
                  total_parts = (int (length accounts) + batch_size - 1) div batch_size;
                  part_filename =
                    (if fmt = ''text'' then base_prefix @ ''_batch'' @ str_int part @ ''.txt''
                     else base_prefix @ ''_batch'' @ str_int part @ ''.csv'')
              in send_chunks chat accounts fmt batch_size timestamp base_prefix (idx + batch_size)
                   (sent @ [\<lparr>doc_chat_id = chat, doc_data = utf8_encode chunk_content,
                             doc_filename = part_filename\<rparr>])))
      else Inr sent)"
  by pat_completeness auto
termination
  by (relation "measure (\<lambda>(chat, accounts, fmt, batch_size, timestamp, base_prefix, idx, sent).
        nat (int (length accounts) - idx))") auto

declare send_chunks.simps [simp del]

text \<open>
  \<open>send_export_files\<close>: the result is the list of documents handed to
  \<open>send_document\<close>, in order, or the exception of the first formatting.
\<close>

definition send_export_files :: "int \<Rightarrow> account list \<Rightarrow> string \<Rightarrow> int \<Rightarrow> string \<Rightarrow> string \<Rightarrow>
    error + document list" where
  "send_export_files chat accounts fmt batch_size timestamp label =
     (let base_prefix =
            (if batch_size \<noteq> 0 then label @ ''_'' @ str_int batch_size @ ''x_'' @ timestamp
             else label @ ''_'' @ timestamp)
      in case format_filtered_accounts accounts fmt timestamp of
           Inl e \<Rightarrow> Inl e
         | Inr (content, _) \<Rightarrow>
             if batch_size = 0 \<or> int (length accounts) \<le> batch_size then
               (let filename = (if fmt = ''text'' then base_prefix @ ''.txt''
                                else base_prefix @ ''.csv'')
                in Inr [\<lparr>doc_chat_id = chat, doc_data = utf8_encode content,
                         doc_filename = filename\<rparr>])
             else send_chunks chat accounts fmt batch_size timestamp base_prefix 0 [])"

section \<open>Sample records\<close>

text \<open>The record of the line \<open>a@x.com:pw\<close>: no attribute at all.\<close>

definition bare_account :: account where
  "bare_account =
     \<lparr>email = ''a@x.com'', password = ''pw'', details = Map.empty, raw = ''a@x.com:pw''\<rparr>"

text \<open>The record of the line \<open>a@x.com:pw|PhoneVerified=true\<close>.\<close>

definition verified_account :: account where
  "verified_account =
     \<lparr>email = ''a@x.com'', password = ''pw'', details = [''PhoneVerified'' \<mapsto> ''true''],
      raw = ''a@x.com:pw|PhoneVerified=true''\<rparr>"

text \<open>The record of the line \<open>a:b|Plan=\<close>: the attribute \<open>Plan\<close> is the empty string.\<close>

definition empty_plan_account :: account where
  "empty_plan_account =
     \<lparr>email = ''a'', password = ''b'', details = [''Plan'' \<mapsto> []], raw = ''a:b|Plan=''\<rparr>"


section \<open>The CSV format in the words of the specification\<close>

text \<open>
  A cell is wrapped in double quotes and every double quote inside it is doubled; an
  absent attribute renders as the empty string; a row is the seven cells joined by
  commas.
\<close>

definition spec_csv_cell :: "string \<Rightarrow> string" where
  "spec_csv_cell cell =
     [CHR 0x22] @ concat (map (\<lambda>c. if c = CHR 0x22 then [CHR 0x22, CHR 0x22] else [c]) cell) @ [CHR 0x22]"

definition spec_attribute :: "account \<Rightarrow> string \<Rightarrow> string" where
  "spec_attribute a k = (case details a k of None \<Rightarrow> [] | Some x \<Rightarrow> x)"

definition spec_csv_row :: "account \<Rightarrow> string" where
  "spec_csv_row a =
     str_join '','' (map spec_csv_cell
       [email a, password a, spec_attribute a ''Plan'', spec_attribute a ''Country'',
        spec_attribute a ''PhoneVerified'', spec_attribute a ''Hold'',
        spec_attribute a ''PaymentMethod''])"

text \<open>The record of the scenario: identifier \<open>x@y.com\<close>, secret \<open>p"w\<close>, \<open>Plan=Pro\<close>.\<close>

definition quote_account :: account where
  \<open>quote_account =
     \<lparr>email = ''x@y.com'', password = ''p"w'', details = [''Plan'' \<mapsto> ''Pro''],
      raw = ''x@y.com:p"w|Plan=Pro''\<rparr>\<close>

section \<open>The line grammar in the words of the specification\<close>

text \<open>
  The credentials of a line are the text before its first pipe, trimmed. A line has a
  colon when that text contains one; its identifier is the trimmed text before the first
  colon of the credentials, its secret the trimmed text after it.
\<close>

definition line_credentials :: "string \<Rightarrow> string" where
  "line_credentials line = str_strip (takeWhile (\<lambda>c. c \<noteq> CHR ''|'') line)"

definition line_has_colon :: "string \<Rightarrow> bool" where
  "line_has_colon line \<longleftrightarrow> CHR '':'' \<in> set (takeWhile (\<lambda>c. c \<noteq> CHR ''|'') line)"

definition line_identifier :: "string \<Rightarrow> string" where
  "line_identifier line = str_strip (takeWhile (\<lambda>c. c \<noteq> CHR '':'') (line_credentials line))"

definition line_secret :: "string \<Rightarrow> string" where
  "line_secret line = str_strip (tl (dropWhile (\<lambda>c. c \<noteq> CHR '':'') (line_credentials line)))"

section \<open>Batches in the words of the specification\<close>

text \<open>The bytes of the formatted export of a collection: the payload of one document.\<close>

definition export_payload :: "account list \<Rightarrow> string \<Rightarrow> string \<Rightarrow> string" where
  "export_payload accounts fmt timestamp =
     (case format_filtered_accounts accounts fmt timestamp of
        Inr (content, _) \<Rightarrow> utf8_encode content
      | Inl _ \<Rightarrow> [])"

text \<open>The file name pieces \<open>send_export_files\<close> builds: extension and \<open>base_prefix\<close>.\<close>

definition file_extension :: "string \<Rightarrow> string" where
  "file_extension fmt = (if fmt = ''text'' then ''.txt'' else ''.csv'')"

definition export_base_prefix :: "string \<Rightarrow> int \<Rightarrow> string \<Rightarrow> string" where
  "export_base_prefix label batch_size timestamp =
     (if batch_size \<noteq> 0 then label @ ''_'' @ str_int batch_size @ ''x_'' @ timestamp
      else label @ ''_'' @ timestamp)"

text \<open>
  The \<open>k\<close>-th chunk of size \<open>b\<close> of a list (counted from 0), and the number of parts:
  \<open>n / b\<close> rounded up, as \<open>(n + b - 1) // b\<close>.
\<close>

definition spec_chunk :: "nat \<Rightarrow> 'a list \<Rightarrow> nat \<Rightarrow> 'a list" where
  "spec_chunk b xs k = take b (drop (k * b) xs)"

definition spec_parts :: "nat \<Rightarrow> nat \<Rightarrow> nat" where
  "spec_parts n b = (n + b - 1) div b"

text \<open>The document of part \<open>k + 1\<close>: the formatted chunk \<open>k\<close> under the name of the part.\<close>

definition part_document :: "int \<Rightarrow> account list \<Rightarrow> string \<Rightarrow> nat \<Rightarrow> string \<Rightarrow> string \<Rightarrow> nat \<Rightarrow> document" where
  "part_document chat accounts fmt b timestamp base_prefix k =
     \<lparr>doc_chat_id = chat,
      doc_data = export_payload (spec_chunk b accounts k) fmt timestamp,
      doc_filename = base_prefix @ ''_batch'' @ str_int (int k + 1) @ file_extension fmt\<rparr>"

text \<open>A collection of three records.\<close>

definition three_accounts :: "account list" where
  "three_accounts = [bare_account, verified_account, empty_plan_account]"

section \<open>Properties of the string functions\<close>

lemma str_lower_Nil_iff [simp]:
  "str_lower v = [] \<longleftrightarrow> v = []" "[] = str_lower v \<longleftrightarrow> v = []" "str_lower [] = []"
  by (auto simp add: str_lower_def)

lemma lower_char_ascii:
  "lower_char CHR ''U'' = CHR ''u''" "lower_char CHR ''N'' = CHR ''n''"
  "lower_char CHR ''K'' = CHR ''k''" "lower_char CHR ''O'' = CHR ''o''"
  "lower_char CHR ''W'' = CHR ''w''" "lower_char CHR ''T'' = CHR ''t''"
  "lower_char CHR ''R'' = CHR ''r''" "lower_char CHR ''E'' = CHR ''e''"
  "lower_char CHR ''u'' = CHR ''u''" "lower_char CHR ''n'' = CHR ''n''"
  "lower_char CHR ''k'' = CHR ''k''" "lower_char CHR ''o'' = CHR ''o''"
  "lower_char CHR ''w'' = CHR ''w''" "lower_char CHR ''t'' = CHR ''t''"
  "lower_char CHR ''r'' = CHR ''r''" "lower_char CHR ''e'' = CHR ''e''"
  "lower_char CHR ''f'' = CHR ''f''" "lower_char CHR ''a'' = CHR ''a''"
  "lower_char CHR ''l'' = CHR ''l''" "lower_char CHR ''s'' = CHR ''s''"
  by (simp_all add: lower_char_def upper_letters_def lower_letters_def)

lemma str_lower_literals:
  "str_lower ''Unknown'' = ''unknown''" "str_lower ''UNKNOWN'' = ''unknown''"
  "str_lower ''true'' = ''true''" "str_lower ''TRUE'' = ''true''"
  "str_lower ''false'' = ''false''"
  by (simp_all add: str_lower_def lower_char_ascii)

lemma in_set_dropWhile_iff: "\<not> P c \<Longrightarrow> c \<in> set (dropWhile P s) \<longleftrightarrow> c \<in> set s"
  by (induction s) auto

lemma in_set_str_strip_iff: "\<not> is_space c \<Longrightarrow> c \<in> set (str_strip s) \<longleftrightarrow> c \<in> set s"
  by (simp add: str_strip_def in_set_dropWhile_iff)

lemma colon_not_space: "\<not> is_space CHR '':''"
  by (simp add: is_space_def)


section \<open>Parsing\<close>

lemma split1_pipe_head:
  "str_split1 CHR ''|'' line =
     takeWhile (\<lambda>c. c \<noteq> CHR ''|'') line #
       (if CHR ''|'' \<in> set line then [tl (dropWhile (\<lambda>c. c \<noteq> CHR ''|'') line)] else [])"
proof (cases "CHR ''|'' \<in> set line")
  case True
  then show ?thesis by (simp add: str_split1_def)
next
  case False
  then have tw: "takeWhile (\<lambda>c. c \<noteq> CHR ''|'') line = line"
    by (intro takeWhile_eq_all_conv [THEN iffD2]) auto
  show ?thesis using False by (simp add: str_split1_def tw)
qed

lemma parse_details_total: "\<exists>m. parse_details ds d = Inr m"
  by (induction ds arbitrary: d) (simp_all add: str_split1_def)

lemma parse_line_ok:
  assumes "line_has_colon line"
  shows "\<exists>d. parse_line line =
           Inr \<lparr>email = line_identifier line, password = line_secret line, details = d,
                raw = str_strip line\<rparr>"
proof -
  have c: "CHR '':'' \<in> set (line_credentials line)"
    using assms by (simp add: line_credentials_def line_has_colon_def in_set_str_strip_iff colon_not_space)
  obtain m where m: "parse_details (str_split CHR ''|'' (tl (dropWhile (\<lambda>c. c \<noteq> CHR ''|'') line))) Map.empty = Inr m"
    using parse_details_total by blast
  show ?thesis
    using c m
    by (simp add: parse_line_def split1_pipe_head str_split1_def [of "CHR '':''"]
          line_identifier_def line_secret_def line_credentials_def)
qed

lemma parse_line_fail:
  assumes "\<not> line_has_colon line"
  shows "parse_line line = Inl ValueError"
proof -
  have c: "CHR '':'' \<notin> set (str_strip (takeWhile (\<lambda>c. c \<noteq> CHR ''|'') line))"
    using assms by (simp add: line_has_colon_def in_set_str_strip_iff colon_not_space)
  show ?thesis
    using c by (simp add: parse_line_def split1_pipe_head str_split1_def [of "CHR '':''"])
qed

lemma has_colon_not_blank: "line_has_colon line \<Longrightarrow> str_strip line \<noteq> []"
proof -
  assume "line_has_colon line"
  then have "CHR '':'' \<in> set line" by (auto simp add: line_has_colon_def dest: set_takeWhileD)
  then have "CHR '':'' \<in> set (str_strip line)" by (simp add: in_set_str_strip_iff colon_not_space)
  then show ?thesis by auto
qed

lemma parse_lines_eq:
  "map (\<lambda>a. (email a, password a, raw a)) (parse_lines ls accounts) =
     map (\<lambda>a. (email a, password a, raw a)) accounts @
     map (\<lambda>l. (line_identifier l, line_secret l, str_strip l)) (filter line_has_colon ls)"
proof (induction ls arbitrary: accounts)
  case Nil
  then show ?case by simp
next
  case (Cons l ls)
  show ?case
  proof (cases "line_has_colon l")
    case True
    from parse_line_ok [OF True] obtain d where
      "parse_line l = Inr \<lparr>email = line_identifier l, password = line_secret l, details = d,
                raw = str_strip l\<rparr>" by blast
    with True show ?thesis by (simp add: Cons.IH has_colon_not_blank)
  next
    case False
    then show ?thesis by (simp add: Cons.IH parse_line_fail)
  qed
qed

text \<open>The sample records are what the parser makes of their lines.\<close>

lemma sample_records_parsed:
  \<open>parse_file ''a@x.com:pw'' = [bare_account]\<close>
  \<open>parse_file ''a@x.com:pw|PhoneVerified=true'' = [verified_account]\<close>
  \<open>parse_file ''x@y.com:p"w|Plan=Pro'' = [quote_account]\<close>
  by (simp_all add: parse_file_def str_splitlines_def is_linebreak_def str_strip_def is_space_def
       parse_line_def str_split1_def str_split_def bare_account_def verified_account_def
       quote_account_def)

text \<open>
  C1, amended: for every input text, \<open>parse_file\<close> returns one record for each line
  that has a colon before its first pipe, in the order of the lines; every other line,
  blank or without such a colon, is dropped and parsing goes on with the next line. The
  identifier of the record is the trimmed text before the first colon, its secret the
  trimmed text from there to the first pipe, its raw field the trimmed line. Neither
  the identifier nor the secret has to be non-empty.
\<close>

theorem parse_file_records:
  "map (\<lambda>a. (email a, password a, raw a)) (parse_file content) =
     map (\<lambda>l. (line_identifier l, line_secret l, str_strip l))
       (filter line_has_colon (str_splitlines content))"
  by (simp add: parse_file_def parse_lines_eq)

text \<open>
  C1, as stated, fails: the line \<open>:pw\<close> has a colon and an empty identifier, the line
  \<open>x:\<close> a colon and an empty secret, and each is parsed to a record, not dropped.
\<close>

theorem empty_identifier_kept:
  "parse_file '':pw'' = [\<lparr>email = [], password = ''pw'', details = Map.empty, raw = '':pw''\<rparr>] \<and>
   parse_file ''x:'' = [\<lparr>email = ''x'', password = [], details = Map.empty, raw = ''x:''\<rparr>]"
  by (simp add: parse_file_def str_splitlines_def is_linebreak_def str_strip_def is_space_def
       parse_line_def str_split1_def)





section \<open>Filtering\<close>

text \<open>The loop of \<open>filter_accounts\<close> computes the list filter of its test.\<close>

lemma filter_loop_eq:
  "filter_loop filter_type val accounts filtered =
     filtered @ filter (account_matches filter_type val) accounts"
  by (induction accounts arbitrary: filtered) simp_all

lemma filter_accounts_eq:
  "filter_accounts accounts filter_type val = filter (account_matches filter_type val) accounts"
  by (simp add: filter_accounts_def filter_loop_eq)

text \<open>
  C8: \<open>filter_accounts\<close> is idempotent. For every record collection \<open>R\<close>, every filter
  kind \<open>c\<close> (the five kinds and any other string) and every value \<open>v\<close>, filtering the
  result of a filtering again with the same kind and value changes nothing.
\<close>

theorem filter_accounts_idempotent:
  "filter_accounts (filter_accounts R c v) c v = filter_accounts R c v"
  by (simp add: filter_accounts_eq)

text \<open>
  C9: the result of \<open>filter_accounts\<close> is an order-preserving subsequence of its input.
  It is the list of the records of \<open>R\<close> that pass the test, in their order in \<open>R\<close>; a
  record occurs in it as often as in \<open>R\<close> when it passes and not at all otherwise.
  The input list is an argument of a pure function: it is only read.
\<close>

theorem filter_accounts_subsequence:
  "filter_accounts R c v = filter (account_matches c v) R \<and>
   subseq (filter_accounts R c v) R \<and>
   set (filter_accounts R c v) = {a \<in> set R. account_matches c v a} \<and>
   (\<forall>a. count_list (filter_accounts R c v) a =
          (if account_matches c v a then count_list R a else 0))"
proof -
  have "count_list (filter P R) a = (if P a then count_list R a else 0)"
    for P and a :: account
    by (induction R) auto
  then show ?thesis by (auto simp add: filter_accounts_eq)
qed

text \<open>
  C10: the fallbacks of the filter for an absent attribute differ between the kinds.
  A record of \<open>R\<close> without \<open>PaymentMethod\<close> is selected by the kind \<open>payment\<close> with the
  value \<open>Unknown\<close> in any letter case (any value whose lower-casing is \<open>unknown\<close>). A
  record without \<open>Plan\<close> is selected by the kind \<open>plan\<close> exactly when the value is the
  empty string, so not by \<open>Unknown\<close>; the same holds for \<open>Country\<close> and the kind
  \<open>country\<close>.
\<close>

theorem filter_fallbacks_diverge:
  "a \<in> set R \<Longrightarrow>
   (details a ''PaymentMethod'' = None \<and> str_lower v = ''unknown''
      \<longrightarrow> a \<in> set (filter_accounts R ''payment'' v)) \<and>
   (details a ''Plan'' = None \<longrightarrow>
      (a \<in> set (filter_accounts R ''plan'' v) \<longleftrightarrow> v = []) \<and>
      a \<notin> set (filter_accounts R ''plan'' ''Unknown'')) \<and>
   (details a ''Country'' = None \<longrightarrow>
      (a \<in> set (filter_accounts R ''country'' v) \<longleftrightarrow> v = []) \<and>
      a \<notin> set (filter_accounts R ''country'' ''Unknown''))"
  by (auto simp add: filter_accounts_eq account_matches_def dict_get_def str_lower_literals)

theorem filter_fallbacks_diverge_witness:
  "bare_account \<in> set [bare_account] \<and>
   details bare_account ''PaymentMethod'' = None \<and> str_lower ''UNKNOWN'' = ''unknown'' \<and>
   details bare_account ''Plan'' = None \<and> details bare_account ''Country'' = None \<and>
   bare_account \<in> set (filter_accounts [bare_account] ''payment'' ''UNKNOWN'') \<and>
   bare_account \<in> set (filter_accounts [bare_account] ''plan'' []) \<and>
   bare_account \<notin> set (filter_accounts [bare_account] ''plan'' ''Unknown'') \<and>
   bare_account \<in> set (filter_accounts [bare_account] ''country'' []) \<and>
   bare_account \<notin> set (filter_accounts [bare_account] ''country'' ''Unknown'')"
  using filter_fallbacks_diverge [of bare_account "[bare_account]" "''UNKNOWN''"]
        filter_fallbacks_diverge [of bare_account "[bare_account]" "[]"]
  by (simp add: bare_account_def str_lower_literals)

text \<open>
  C4, as stated, fails: the value given by the caller is compared with the tokens
  \<open>Verified\<close> and \<open>Active\<close> as it is. On a record whose phone is verified and which
  is not on hold, the tokens select the record and their lower-case spellings select
  nothing.
\<close>

theorem phone_hold_value_case_sensitive:
  "filter_accounts [verified_account] ''phone'' ''Verified'' = [verified_account] \<and>
   filter_accounts [verified_account] ''phone'' ''verified'' = [] \<and>
   filter_accounts [verified_account] ''hold'' ''Active'' = [verified_account] \<and>
   filter_accounts [verified_account] ''hold'' ''active'' = []"
  by (simp add: filter_accounts_eq account_matches_def dict_get_def verified_account_def
        str_lower_literals)

text \<open>
  C4, amended: for the kinds \<open>phone\<close> and \<open>hold\<close> the value of the caller must be one
  of the tokens \<open>Verified\<close>, \<open>Unverified\<close>, \<open>On Hold\<close>, \<open>Active\<close>, spelled exactly; any
  other value, a token in another letter case included, selects no record. Only the
  attribute of the record is lower-cased before it is compared with \<open>true\<close>, \<open>false\<close>,
  \<open>null\<close> and \<open>unknown\<close>.
\<close>

theorem phone_hold_tokens_exact:
  "(v \<noteq> ''Verified'' \<and> v \<noteq> ''Unverified'' \<longrightarrow> filter_accounts R ''phone'' v = []) \<and>
   (v \<noteq> ''On Hold'' \<and> v \<noteq> ''Active'' \<longrightarrow> filter_accounts R ''hold'' v = []) \<and>
   filter_accounts R ''phone'' ''Verified'' =
     filter (\<lambda>a. str_lower (dict_get (details a) ''PhoneVerified'' ''Unknown'') = ''true'') R \<and>
   filter_accounts R ''phone'' ''Unverified'' =
     filter (\<lambda>a. str_lower (dict_get (details a) ''PhoneVerified'' ''Unknown'')
                   \<in> {''false'', ''null'', ''unknown''}) R \<and>
   filter_accounts R ''hold'' ''On Hold'' =
     filter (\<lambda>a. str_lower (dict_get (details a) ''Hold'' ''false'') = ''true'') R \<and>
   filter_accounts R ''hold'' ''Active'' =
     filter (\<lambda>a. str_lower (dict_get (details a) ''Hold'' ''false'') = ''false'') R"
  by (simp add: filter_accounts_eq account_matches_def [abs_def] Let_def)

theorem phone_hold_tokens_exact_witness:
  "''verified'' \<noteq> ''Verified'' \<and> ''verified'' \<noteq> ''Unverified'' \<and>
   ''active'' \<noteq> ''On Hold'' \<and> ''active'' \<noteq> ''Active'' \<and>
   filter_accounts [verified_account] ''phone'' ''verified'' = [] \<and>
   filter_accounts [verified_account] ''hold'' ''active'' = []"
  using phone_hold_tokens_exact [of "''verified''" "[verified_account]"]
        phone_hold_tokens_exact [of "''active''" "[verified_account]"]
  by simp

section \<open>Statistics\<close>

lemma parse_file_empty_plan: "parse_file ''a:b|Plan='' = [empty_plan_account]"
  by (simp add: parse_file_def str_splitlines_def is_linebreak_def str_strip_def is_space_def
       parse_line_def str_split1_def str_split_def empty_plan_account_def)

lemma finite_dom_incr: "finite (dom table) \<Longrightarrow> finite (dom (incr table k))"
  by (simp add: incr_def)

lemma table_sum_incr: 
  assumes "finite (dom table)" shows "table_sum (incr table k) = table_sum table + 1"
proof (cases "table k")
  case None
  then have "k \<notin> dom table" by auto
  moreover have "dom (incr table k) = insert k (dom table)" by (simp add: incr_def)
  moreover have "\<And>j. j \<in> dom table \<Longrightarrow> the (incr table k j) = the (table j)"
    using None by (auto simp add: incr_def)
  ultimately show ?thesis using assms None
    by (simp add: table_sum_def incr_def)
next
  case (Some n)
  then have k: "k \<in> dom table" by auto
  have d: "dom (incr table k) = dom table" using k by (auto simp add: incr_def)
  have "table_sum (incr table k) = (\<Sum>j \<in> dom table. the (incr table k j))"
    by (simp add: table_sum_def d)
  also have "\<dots> = the (incr table k k) + (\<Sum>j \<in> dom table - {k}. the (incr table k j))"
    using assms k by (simp add: sum.remove)
  also have "(\<Sum>j \<in> dom table - {k}. the (incr table k j)) = (\<Sum>j \<in> dom table - {k}. the (table j))"
    by (rule sum.cong) (auto simp add: incr_def)
  also have "the (incr table k k) = the (table k) + 1" using Some by (simp add: incr_def)
  finally have "table_sum (incr table k) = (the (table k) + (\<Sum>j \<in> dom table - {k}. the (table j))) + 1"
    by simp
  also have "the (table k) + (\<Sum>j \<in> dom table - {k}. the (table j)) = table_sum table"
    using assms k by (simp add: table_sum_def sum.remove)
  finally show ?thesis .
qed

lemma table_count_incr:
  "table_count (incr table k) j = table_count table j + (if j = k then 1 else 0)"
  by (simp add: table_count_def incr_def)

lemma foldl_incr_finite: "finite (dom table) \<Longrightarrow> finite (dom (foldl incr table ks))"
  by (induction ks arbitrary: table) (simp_all add: finite_dom_incr)

lemma foldl_incr_sum:
  "finite (dom table) \<Longrightarrow> table_sum (foldl incr table ks) = table_sum table + length ks"
  by (induction ks arbitrary: table) (simp_all add: finite_dom_incr table_sum_incr)

lemma foldl_incr_count:
  "table_count (foldl incr table ks) j = table_count table j + count_list ks j"
  by (induction ks arbitrary: table) (simp_all add: table_count_incr)

lemma count_list_map: "count_list (map f xs) k = length (filter (\<lambda>x. f x = k) xs)"
  by (induction xs) simp_all

lemma stats_loop_tables:
  "plans (stats_loop accounts st) =
     foldl incr (plans st) (map (\<lambda>a. dict_get (details a) ''Plan'' ''Unknown'') accounts)"
  "phone (stats_loop accounts st) =
     foldl incr (phone st) (map (\<lambda>a. dict_get (details a) ''PhoneVerified'' ''Unknown'') accounts)"
  "country (stats_loop accounts st) =
     foldl incr (country st) (map (\<lambda>a. dict_get (details a) ''Country'' ''Unknown'') accounts)"
  "hold (stats_loop accounts st) =
     foldl incr (hold st) (map (\<lambda>a. dict_get (details a) ''Hold'' ''false'') accounts)"
  "payment (stats_loop accounts st) =
     foldl incr (payment st) (map (\<lambda>a. dict_get (details a) ''PaymentMethod'' ''Unknown'') accounts)"
  "total (stats_loop accounts st) = total st"
  by (induction accounts arbitrary: st; simp add: count_account_def Let_def)+

lemma table_sum_empty: "table_sum Map.empty = 0" "table_count Map.empty k = 0"
  by (simp_all add: table_sum_def table_count_def)

text \<open>
  C3: for every record collection \<open>R\<close>, the total of \<open>generate_stats R\<close> is the number
  of records of \<open>R\<close>, and the counts of each of the five frequency tables (plans, phone,
  country, hold, payment) add up to that number: every record increments one entry of
  every table.
\<close>

theorem generate_stats_totals:
  "total (generate_stats R) = length R \<and>
   table_sum (plans (generate_stats R)) = length R \<and>
   table_sum (phone (generate_stats R)) = length R \<and>
   table_sum (country (generate_stats R)) = length R \<and>
   table_sum (hold (generate_stats R)) = length R \<and>
   table_sum (payment (generate_stats R)) = length R"
  by (simp add: generate_stats_def stats_loop_tables foldl_incr_sum table_sum_empty)

text \<open>
  C5, as stated, fails: the line \<open>a:b|Plan=\<close> parses to a record whose \<open>Plan\<close> is the
  empty string, and \<open>generate_stats\<close> counts it under the empty string; the table of
  plans has no entry \<open>Unknown\<close>.
\<close>

theorem empty_plan_not_unknown:
  "details (hd (parse_file ''a:b|Plan='')) ''Plan'' = Some [] \<and>
   plans (generate_stats (parse_file ''a:b|Plan='')) ''Unknown'' = None \<and>
   plans (generate_stats (parse_file ''a:b|Plan='')) [] = Some 1"
  by (simp add: parse_file_empty_plan empty_plan_account_def generate_stats_def
        count_account_def dict_get_def incr_def)

text \<open>
  C5, amended: the fallback of a table (\<open>Unknown\<close> for plan, phone verification, country
  and payment method, \<open>false\<close> for hold) is counted for a record only when the attribute
  key is absent from it; a record whose attribute is present is counted under its value,
  the empty string included. So the count of a value \<open>k\<close> in a table is the number of
  records whose attribute, or the fallback when the key is absent, is \<open>k\<close>.
\<close>

theorem generate_stats_counts:
  "table_count (plans (generate_stats R)) k =
     length (filter (\<lambda>a. (case details a ''Plan'' of None \<Rightarrow> ''Unknown'' | Some x \<Rightarrow> x) = k) R) \<and>
   table_count (phone (generate_stats R)) k =
     length (filter (\<lambda>a. (case details a ''PhoneVerified'' of None \<Rightarrow> ''Unknown'' | Some x \<Rightarrow> x) = k) R) \<and>
   table_count (country (generate_stats R)) k =
     length (filter (\<lambda>a. (case details a ''Country'' of None \<Rightarrow> ''Unknown'' | Some x \<Rightarrow> x) = k) R) \<and>
   table_count (hold (generate_stats R)) k =
     length (filter (\<lambda>a. (case details a ''Hold'' of None \<Rightarrow> ''false'' | Some x \<Rightarrow> x) = k) R) \<and>
   table_count (payment (generate_stats R)) k =
     length (filter (\<lambda>a. (case details a ''PaymentMethod'' of None \<Rightarrow> ''Unknown'' | Some x \<Rightarrow> x) = k) R)"
  by (simp add: generate_stats_def stats_loop_tables foldl_incr_count table_sum_empty
        count_list_map dict_get_def)

section \<open>Export formats\<close>

lemma escape_cells_eq: "escape_cells cells escaped_row = escaped_row @ map spec_csv_cell cells"
  by (induction cells arbitrary: escaped_row) (simp_all add: spec_csv_cell_def str_replace_def)

lemma csv_loop_eq: "csv_loop accounts rows = rows @ map spec_csv_row accounts"
  by (induction accounts arbitrary: rows)
     (simp_all add: escape_cells_eq spec_csv_row_def spec_attribute_def dict_get_def Let_def)

text \<open>
  C7: for every record collection the CSV export is the fixed header line followed by
  one row per record in the order of the collection, the lines joined by newlines; every
  cell of a row is wrapped in double quotes with the double quotes inside it doubled,
  and an absent attribute is the empty cell. The record with identifier \<open>x@y.com\<close>,
  secret \<open>p"w\<close> and \<open>Plan=Pro\<close> gives the row \<open>"x@y.com","p""w","Pro","","","",""\<close>
  after the header.
\<close>

theorem csv_export_rows:
  \<open>format_filtered_accounts R ''csv'' ts =
     Inr (str_join [CHR 0x0A]
            (''Email,Password,Plan,Country,PhoneVerified,Hold,PaymentMethod'' # map spec_csv_row R),
          ''netflix_accounts_'' @ ts @ ''.csv'') \<and>
   format_filtered_accounts [quote_account] ''csv'' ts =
     Inr (''Email,Password,Plan,Country,PhoneVerified,Hold,PaymentMethod'' @ [CHR 0x0A] @
          ''"x@y.com","p""w","Pro","","","",""'',
          ''netflix_accounts_'' @ ts @ ''.csv'')\<close>
  by (simp add: format_filtered_accounts_def csv_loop_eq csv_header_def spec_csv_row_def
        spec_csv_cell_def spec_attribute_def quote_account_def)

section \<open>Batches\<close>

lemma parts_less_iff: "0 < b \<Longrightarrow> k < spec_parts n b \<longleftrightarrow> k * b < n"
proof -
  assume b: "0 < b"
  have "k < spec_parts n b \<longleftrightarrow> Suc k \<le> (n + b - 1) div b"
    by (simp add: spec_parts_def Suc_le_eq)
  also have "\<dots> \<longleftrightarrow> Suc k * b \<le> n + b - 1"
    using b by (simp add: less_eq_div_iff_mult_less_eq)
  also have "\<dots> \<longleftrightarrow> k * b < n"
    using b by auto
  finally show ?thesis .
qed

lemma format_payload:
  "fmt = ''text'' \<or> fmt = ''csv'' \<Longrightarrow>
   \<exists>content name. format_filtered_accounts xs fmt ts = Inr (content, name) \<and>
      utf8_encode content = export_payload xs fmt ts"
  by (auto simp add: format_filtered_accounts_def export_payload_def)

lemma send_chunks_eq:
  assumes fmt: "fmt = ''text'' \<or> fmt = ''csv''" and b: "0 < b"
  shows "send_chunks chat R fmt (int b) ts base_prefix (int (k * b)) sent =
           Inr (sent @ map (part_document chat R fmt b ts base_prefix) [k..<spec_parts (length R) b])"
proof (induction "spec_parts (length R) b - k" arbitrary: k sent)
  case 0
  then have "\<not> k < spec_parts (length R) b" by simp
  then have "\<not> k * b < length R" using b by (simp add: parts_less_iff)
  then have "\<not> int (k * b) < int (length R)" by (simp only: of_nat_less_iff not_False_eq_True)
  moreover have "[k..<spec_parts (length R) b] = []" using 0 by simp
  ultimately show ?case
    by (subst send_chunks.simps) simp
next
  case (Suc m)
  then have k: "k < spec_parts (length R) b" by simp
  then have lt: "k * b < length R" using b by (simp add: parts_less_iff)
  obtain content name where
    f: "format_filtered_accounts (spec_chunk b R k) fmt ts = Inr (content, name)"
       "utf8_encode content = export_payload (spec_chunk b R k) fmt ts"
    using format_payload [OF fmt] by blast
  have c: "(0 < int b \<and> int (k * b) < int (length R)) = True"
    using b lt by (simp only: of_nat_less_iff of_nat_0_less_iff simp_thms)
  have part: "int (k * b) div int b + 1 = int k + 1"
    using b by (simp flip: zdiv_int)
  have nxt: "int (k * b) + int b = int (Suc k * b)" by simp
  have m: "m = spec_parts (length R) b - Suc k" using Suc.hyps(2) by simp
  have fn: "(if fmt = ''text'' then base_prefix @ ''_batch'' @ str_int (int k + 1) @ ''.txt''
             else base_prefix @ ''_batch'' @ str_int (int k + 1) @ ''.csv'') =
            base_prefix @ ''_batch'' @ str_int (int k + 1) @ file_extension fmt"
    by (simp add: file_extension_def)
  have f': "format_filtered_accounts (take b (drop (k * b) R)) fmt ts = Inr (content, name)"
    using f(1) by (simp only: spec_chunk_def)
  have pd: "\<lparr>doc_chat_id = chat, doc_data = utf8_encode content,
             doc_filename = base_prefix @ ''_batch'' @ str_int (int k + 1) @ file_extension fmt\<rparr> =
            part_document chat R fmt b ts base_prefix k"
    by (simp only: part_document_def f(2))
  have "send_chunks chat R fmt (int b) ts base_prefix (int (k * b)) sent =
        send_chunks chat R fmt (int b) ts base_prefix (int (Suc k * b))
          (sent @ [part_document chat R fmt b ts base_prefix k])"
    by (subst send_chunks.simps)
       (simp only: c if_True Let_def nat_int part nxt fn f' sum.case prod.case pd)
  also have "\<dots> = Inr ((sent @ [part_document chat R fmt b ts base_prefix k]) @
                 map (part_document chat R fmt b ts base_prefix) [Suc k..<spec_parts (length R) b])"
    by (rule Suc.hyps(1) [OF m])
  also have "[k..<spec_parts (length R) b] = k # [Suc k..<spec_parts (length R) b]"
    using k by (simp add: upt_conv_Cons)
  then have "(sent @ [part_document chat R fmt b ts base_prefix k]) @
                 map (part_document chat R fmt b ts base_prefix) [Suc k..<spec_parts (length R) b] =
             sent @ map (part_document chat R fmt b ts base_prefix) [k..<spec_parts (length R) b]"
    by simp
  finally show ?case .
qed

lemma spec_chunk_Suc: "spec_chunk b xs (Suc k) = spec_chunk b (drop b xs) k"
  by (simp add: spec_chunk_def add.commute)

lemma chunks_concat_upto:
  "length xs \<le> p * b \<Longrightarrow> concat (map (spec_chunk b xs) [0..<p]) = xs"
proof (induction p arbitrary: xs)
  case 0
  then show ?case by simp
next
  case (Suc p)
  have "[0..<Suc p] = 0 # map Suc [0..<p]"
    by (simp add: upt_conv_Cons map_Suc_upt del: upt_Suc)
  then have "concat (map (spec_chunk b xs) [0..<Suc p]) =
          spec_chunk b xs 0 @ concat (map (spec_chunk b (drop b xs)) [0..<p])"
    by (simp add: comp_def spec_chunk_Suc del: upt_Suc)
  also have "concat (map (spec_chunk b (drop b xs)) [0..<p]) = drop b xs"
    using Suc.prems by (intro Suc.IH) simp
  finally show ?case by (simp add: spec_chunk_def)
qed

lemma chunks_concat:
  assumes "0 < b"
  shows "concat (map (spec_chunk b xs) [0..<spec_parts (length xs) b]) = xs"
proof -
  have "\<not> spec_parts (length xs) b * b < length xs"
    using parts_less_iff [OF assms, of "spec_parts (length xs) b" "length xs"] by simp
  then show ?thesis by (intro chunks_concat_upto) simp
qed

lemma chunk_length:
  assumes b: "0 < b" and k: "k < spec_parts (length xs) b"
  shows "length (spec_chunk b xs k) =
           (if k + 1 < spec_parts (length xs) b then b
            else if length xs mod b = 0 then b else length xs mod b)"
proof -
  let ?n = "length xs"
  have len: "length (spec_chunk b xs k) = min b (?n - k * b)"
    by (simp add: spec_chunk_def min.commute)
  have lt: "k * b < ?n" using k b by (simp add: parts_less_iff)
  show ?thesis
  proof (cases "k + 1 < spec_parts ?n b")
    case True
    then have "(k + 1) * b < ?n" using b by (simp add: parts_less_iff)
    then have "b \<le> ?n - k * b" by simp
    with True len show ?thesis by simp
  next
    case False
    then have le: "?n \<le> (k + 1) * b" using b parts_less_iff [OF b, of "k + 1" ?n] by simp
    have n: "?n = (?n div b) * b + ?n mod b" by simp
    show ?thesis
    proof (cases "?n mod b = 0")
      case True
      with n have n': "?n = (?n div b) * b" by simp
      from lt n' have "k * b < (?n div b) * b" by simp
      then have "k < ?n div b" by (simp only: mult_less_cancel2)
      moreover from le n' have "(?n div b) * b \<le> (k + 1) * b" by simp
      then have "?n div b \<le> k + 1" using b by (simp only: mult_le_cancel2)
      ultimately have "?n div b = k + 1" by simp
      with n' have "?n = (k + 1) * b" by simp
      then have "?n - k * b = b" by simp
      with False True len show ?thesis by simp
    next
      case nz: False
      then have r: "0 < ?n mod b" "?n mod b < b" using b by simp_all
      have "(?n div b) * b < (k + 1) * b" using le n r by linarith
      then have "?n div b < k + 1" by (simp only: mult_less_cancel2)
      moreover have "?n < (?n div b + 1) * b"
        using dividend_less_div_times [OF b, of ?n] by (simp add: algebra_simps)
      with lt have "k * b < (?n div b + 1) * b" by (rule less_trans)
      then have "k < ?n div b + 1" by (simp only: mult_less_cancel2)
      ultimately have "?n div b = k" by simp
      with n have "?n - k * b = ?n mod b" by (metis add_diff_cancel_left')
      with False nz len r show ?thesis by simp
    qed
  qed
qed

lemma spec_parts_ceiling:
  assumes b: "0 < b"
  shows "spec_parts n b = n div b + (if n mod b = 0 then 0 else 1)"
proof -
  have r: "n mod b < b" using b by simp
  have "n + b - 1 = (n mod b + b - 1) + (n div b) * b"
    using b div_mult_mod_eq [of n b] by linarith
  then have "(n + b - 1) div b = n div b + (n mod b + b - 1) div b"
    using b by (simp only: div_mult_self1)
  moreover have "(n mod b + b - 1) div b = (if n mod b = 0 then 0 else 1)"
  proof (cases "n mod b = 0")
    case True
    then show ?thesis using b by simp
  next
    case False
    then have "n mod b + b - 1 = (n mod b - 1) + 1 * b" by simp
    then have "(n mod b + b - 1) div b = 1 + (n mod b - 1) div b"
      using b by (simp only: div_mult_self1)
    moreover have "(n mod b - 1) div b = 0" using r by simp
    ultimately show ?thesis using False by simp
  qed
  ultimately show ?thesis by (simp add: spec_parts_def)
qed

text \<open>
  C6, amended: for the formats \<open>text\<close> and \<open>csv\<close>, a collection \<open>R\<close> of \<open>n\<close> records
  and a batch size \<open>b \<ge> 0\<close>. If \<open>b = 0\<close> or \<open>n \<le> b\<close>, \<open>send_export_files\<close> sends
  exactly one document, the formatted export of all of \<open>R\<close>. Otherwise it sends
  exactly \<open>(n + b - 1) div b\<close> documents, that is \<open>n / b\<close> rounded up; the document
  number \<open>k + 1\<close> is the export of the chunk
  \<open>take b (drop (k * b) R)\<close>, formatted on its own, under a file name that carries the
  part index \<open>k + 1\<close>; the chunks in order make up \<open>R\<close>; every chunk but the last has
  \<open>b\<close> records and the last has \<open>n mod b\<close>, or \<open>b\<close> when \<open>b\<close> divides \<open>n\<close>.
\<close>

theorem send_export_files_batches:
  "fmt = ''text'' \<or> fmt = ''csv'' \<Longrightarrow>
   (b = 0 \<or> length R \<le> b \<longrightarrow>
      send_export_files chat R fmt (int b) ts label =
        Inr [\<lparr>doc_chat_id = chat, doc_data = export_payload R fmt ts,
              doc_filename = export_base_prefix label (int b) ts @ file_extension fmt\<rparr>]) \<and>
   (0 < b \<and> b < length R \<longrightarrow>
      send_export_files chat R fmt (int b) ts label =
        Inr (map (part_document chat R fmt b ts (export_base_prefix label (int b) ts))
               [0..<spec_parts (length R) b]) \<and>
      spec_parts (length R) b = length R div b + (if length R mod b = 0 then 0 else 1) \<and>
      concat (map (spec_chunk b R) [0..<spec_parts (length R) b]) = R \<and>
      (\<forall>k<spec_parts (length R) b.
         length (spec_chunk b R k) =
           (if k + 1 < spec_parts (length R) b then b
            else if length R mod b = 0 then b else length R mod b)))"
proof -
  assume fmt: "fmt = ''text'' \<or> fmt = ''csv''"
  obtain content name where
    f: "format_filtered_accounts R fmt ts = Inr (content, name)"
       "utf8_encode content = export_payload R fmt ts"
    using format_payload [OF fmt] by blast
  have single: "send_export_files chat R fmt (int b) ts label =
        Inr [\<lparr>doc_chat_id = chat, doc_data = export_payload R fmt ts,
              doc_filename = export_base_prefix label (int b) ts @ file_extension fmt\<rparr>]"
    if "b = 0 \<or> length R \<le> b"
    using that f by (auto simp add: send_export_files_def export_base_prefix_def file_extension_def)
  have many: "send_export_files chat R fmt (int b) ts label =
        Inr (map (part_document chat R fmt b ts (export_base_prefix label (int b) ts))
               [0..<spec_parts (length R) b])"
    if "0 < b" "b < length R"
  proof -
    have "send_export_files chat R fmt (int b) ts label =
          send_chunks chat R fmt (int b) ts (export_base_prefix label (int b) ts) (int (0 * b)) []"
      using that f by (simp add: send_export_files_def export_base_prefix_def)
    also have "\<dots> = Inr ([] @ map (part_document chat R fmt b ts (export_base_prefix label (int b) ts))
               [0..<spec_parts (length R) b])"
      by (rule send_chunks_eq [OF fmt that(1)])
    finally show ?thesis by simp
  qed
  have rest: "spec_parts (length R) b = length R div b + (if length R mod b = 0 then 0 else 1) \<and>
      concat (map (spec_chunk b R) [0..<spec_parts (length R) b]) = R \<and>
      (\<forall>k<spec_parts (length R) b.
         length (spec_chunk b R k) =
           (if k + 1 < spec_parts (length R) b then b
            else if length R mod b = 0 then b else length R mod b))"
    if "0 < b"
    using spec_parts_ceiling [OF that, of "length R"] chunks_concat [OF that, of R]
      chunk_length [OF that, of _ R] by blast
  show ?thesis
    using single many rest by blast
qed

text \<open>A negative batch size sends nothing: the range of the loop is empty.\<close>

lemma send_export_files_negative:
  "fmt = ''text'' \<or> fmt = ''csv'' \<Longrightarrow> batch_size < 0 \<Longrightarrow>
   send_export_files chat R fmt batch_size ts label = Inr []"
  by (auto simp add: send_export_files_def format_filtered_accounts_def send_chunks.simps)

lemmas export_eval =
  send_export_files_def send_chunks.simps format_filtered_accounts_def utf8_encode_def
  utf8_char_def str_int_def str_nat.simps digit_char_def bare_account_def verified_account_def
  empty_plan_account_def three_accounts_def

theorem send_export_files_batches_witness:
  "send_export_files 7 three_accounts ''text'' 0 ''T'' ''L'' =
     Inr [\<lparr>doc_chat_id = 7,
           doc_data = ''a@x.com:pw\<newline>a@x.com:pw|PhoneVerified=true\<newline>a:b|Plan='',
           doc_filename = ''L_T.txt''\<rparr>] \<and>
   send_export_files 7 three_accounts ''text'' 2 ''T'' ''L'' =
     Inr [\<lparr>doc_chat_id = 7,
           doc_data = ''a@x.com:pw\<newline>a@x.com:pw|PhoneVerified=true'',
           doc_filename = ''L_2x_T_batch1.txt''\<rparr>,
          \<lparr>doc_chat_id = 7, doc_data = ''a:b|Plan='',
           doc_filename = ''L_2x_T_batch2.txt''\<rparr>] \<and>
   spec_parts (length three_accounts) 2 = 2 \<and>
   length (spec_chunk 2 three_accounts 0) = 2 \<and>
   length (spec_chunk 2 three_accounts 1) = 1"
  using send_export_files_batches [where fmt = "''text''" and b = 0 and R = three_accounts
          and chat = 7 and ts = "''T''" and label = "''L''"]
        send_export_files_batches [where fmt = "''text''" and b = 2 and R = three_accounts
          and chat = 7 and ts = "''T''" and label = "''L''"]
  by (simp add: export_payload_def part_document_def spec_chunk_def spec_parts_def
        export_base_prefix_def file_extension_def format_filtered_accounts_def utf8_encode_def
        utf8_char_def str_int_def str_nat.simps digit_char_def bare_account_def
        verified_account_def empty_plan_account_def three_accounts_def)

text \<open>
  C6, as stated, fails in one point: a call does not carry the total part count. With
  batch size 1, the first two documents of an export of three records (three parts)
  are the first two documents of an export of its first two records (two parts): chat,
  bytes and file name are the same, and nothing else is handed to \<open>send_document\<close>.
\<close>

theorem total_parts_not_sent:
  "send_export_files 7 [bare_account, verified_account, empty_plan_account] ''text'' 1 ''T'' ''L'' =
     Inr [\<lparr>doc_chat_id = 7, doc_data = ''a@x.com:pw'', doc_filename = ''L_1x_T_batch1.txt''\<rparr>,
          \<lparr>doc_chat_id = 7, doc_data = ''a@x.com:pw|PhoneVerified=true'',
           doc_filename = ''L_1x_T_batch2.txt''\<rparr>,
          \<lparr>doc_chat_id = 7, doc_data = ''a:b|Plan='', doc_filename = ''L_1x_T_batch3.txt''\<rparr>] \<and>
   send_export_files 7 [bare_account, verified_account] ''text'' 1 ''T'' ''L'' =
     Inr [\<lparr>doc_chat_id = 7, doc_data = ''a@x.com:pw'', doc_filename = ''L_1x_T_batch1.txt''\<rparr>,
          \<lparr>doc_chat_id = 7, doc_data = ''a@x.com:pw|PhoneVerified=true'',
           doc_filename = ''L_1x_T_batch2.txt''\<rparr>]"
  by (simp add: export_eval)

end
